theory Spec2Isabelle
  imports Main "HOL-Library.Multiset"
begin

section \<open>Errors (package errors)\<close>

text \<open>
  A Go \<open>error\<close> value. \<open>SnapemError\<close> carries the exit code, the message and the wrapped
  cause of the repository's own error type (its \<open>Details\<close> map only holds help texts and
  is left out); \<open>ForeignError\<close> is any other error value, such as the transport errors a
  scanner client returns, known by its message. A nil error is \<open>None\<close> of
  \<open>error option\<close>.
\<close>

datatype error =
    SnapemError int string "error option"
  | ForeignError string


definition ExitManifestError :: int where
  "ExitManifestError = 7"


definition ManifestError :: "string \<Rightarrow> error option \<Rightarrow> error" where
  "ManifestError message cause = SnapemError ExitManifestError message cause"

section \<open>Package identity from the lockfile (internal/manifest/parser.go)\<close>

record Package =
  Name :: string
  Version :: string
  Ecosystem :: string

text \<open>
  \<open>Manifest\<close> and \<open>PackageLock\<close> are the parsed files. A Go map is ranged over in an
  unspecified order, so each map is an association list holding its entries in the
  order the loop happens to visit them.
\<close>

record Manifest =
  ManifestName :: string
  ManifestVersion :: string
  Scripts :: "(string \<times> string) list"
  Dependencies :: "(string \<times> string) list"
  DevDependencies :: "(string \<times> string) list"

record PackageLockPkg =
  PkgVersion :: string
  Resolved :: string
  Integrity :: string
  Dev :: bool

record PackageLock =
  LockName :: string
  LockVersion :: string
  LockfileVersion :: int
  Packages :: "(string \<times> PackageLockPkg) list"

text \<open>
  \<open>filepath.Base\<close> of the Go standard library, on a system whose separator is \<open>/\<close> and
  whose volume names are empty (the program runs on macOS only): the empty path gives
  \<open>.\<close>, trailing slashes are stripped, the result is what follows the last remaining
  slash, and a path of slashes only gives \<open>/\<close>.
\<close>

definition Base :: "string \<Rightarrow> string" where
  "Base path =
     (if path = [] then ''.''
      else
        let stripped = rev (dropWhile (\<lambda>c. c = CHR ''/'') (rev path));
            element = rev (takeWhile (\<lambda>c. c \<noteq> CHR ''/'') (rev stripped))
        in if element = [] then ''/'' else element)"

text \<open>\<open>cleanVersion\<close>: the first prefix of the list that the version properly starts with
  is cut off.\<close>

fun cleanVersion_prefixes :: "string list \<Rightarrow> string \<Rightarrow> string" where
  "cleanVersion_prefixes [] version = version"
| "cleanVersion_prefixes (prefix # rest) version =
     (if length version > length prefix \<and> take (length prefix) version = prefix
      then drop (length prefix) version
      else cleanVersion_prefixes rest version)"

definition cleanVersion :: "string \<Rightarrow> string" where
  "cleanVersion version =
     (if length version = 0 then version
      else cleanVersion_prefixes [''^'', ''~'', ''>='', ''<='', ''>'', ''<'', ''=''] version)"

text \<open>The body of the loop over \<open>lockfile.Packages\<close>: the packages appended so far, and
  one entry. \<open>manifest_entry\<close> is the body of the loops over the manifest's maps, and
  \<open>manifest_packages\<close> the fallback branch made of them.\<close>

definition lockfile_entry :: "bool \<Rightarrow> Package list \<Rightarrow> string \<times> PackageLockPkg \<Rightarrow> Package list" where
  "lockfile_entry includeDev packages entry =
     (case entry of (pkgPath, pkgInfo) \<Rightarrow>
        if pkgPath = [] then packages
        else if Dev pkgInfo \<and> \<not> includeDev then packages
        else
          let name = Base pkgPath
          in if name = [] \<or> PkgVersion pkgInfo = [] then packages
             else packages @ [\<lparr>Name = name, Version = PkgVersion pkgInfo, Ecosystem = ''npm''\<rparr>])"

definition manifest_entry :: "Package list \<Rightarrow> string \<times> string \<Rightarrow> Package list" where
  "manifest_entry packages entry =
     (case entry of (name, version) \<Rightarrow>
        packages @ [\<lparr>Name = name, Version = cleanVersion version, Ecosystem = ''npm''\<rparr>])"

text \<open>
  \<open>GetDependencies\<close>. The two files are read by \<open>ParseManifest\<close> and \<open>ParseLockfile\<close>;
  the model takes what they return: the manifest or its error, and the lockfile, \<open>None\<close>
  when the file is missing or unreadable (the error of \<open>ParseLockfile\<close> is ignored by
  the caller, which then sees a nil lockfile).
\<close>

definition manifest_packages :: "Manifest \<Rightarrow> bool \<Rightarrow> Package list" where
  "manifest_packages manifest includeDev =
     (let packages = foldl manifest_entry [] (Dependencies manifest)
      in if includeDev then foldl manifest_entry packages (DevDependencies manifest)
         else packages)"

definition GetDependencies ::
  "error + Manifest \<Rightarrow> PackageLock option \<Rightarrow> bool \<Rightarrow> error + Package list" where
  "GetDependencies parsedManifest parsedLockfile includeDev =
     (case parsedManifest of
        Inl err \<Rightarrow> Inl err
      | Inr manifest \<Rightarrow>
          (case parsedLockfile of
             None \<Rightarrow> Inr (manifest_packages manifest includeDev)
           | Some lockfile \<Rightarrow>
               if LockfileVersion lockfile \<ge> 2
               then Inr (foldl (lockfile_entry includeDev) [] (Packages lockfile))
               else Inr (manifest_packages manifest includeDev)))"

section \<open>Result model (package types)\<close>

text \<open>\<open>FindingType\<close> and \<open>Severity\<close> are string types in Go: a scanner may report any
  string, and the named constants are some of them.\<close>

type_synonym FindingType = string
type_synonym Severity = string

definition FindingTypeMalware :: FindingType where
  "FindingTypeMalware = ''malware''"

definition FindingTypeCVE :: FindingType where
  "FindingTypeCVE = ''cve''"

definition FindingTypeTyposquat :: FindingType where
  "FindingTypeTyposquat = ''typosquat''"

definition FindingTypeLicense :: FindingType where
  "FindingTypeLicense = ''license''"

definition FindingTypeMaintainer :: FindingType where
  "FindingTypeMaintainer = ''maintainer''"

definition FindingTypeQuality :: FindingType where
  "FindingTypeQuality = ''quality''"

definition SeverityCritical :: Severity where
  "SeverityCritical = ''critical''"

definition SeverityHigh :: Severity where
  "SeverityHigh = ''high''"

definition SeverityMedium :: Severity where
  "SeverityMedium = ''medium''"

definition SeverityLow :: Severity where
  "SeverityLow = ''low''"


text \<open>The fields \<open>Package\<close> and \<open>Version\<close> of a finding are \<open>FindingPackage\<close> and
  \<open>FindingVersion\<close> here, and the field \<open>Packages\<close> of a scan result is
  \<open>PackagesScanned\<close> (its JSON name), since a field name belongs to one record. Go's
  \<open>int\<close> and \<open>time.Duration\<close> are 64-bit; they are \<open>int\<close> here, no counter of this
  program coming near the bound.\<close>

record Finding =
  FindingPackage :: string
  FindingVersion :: string
  Type :: FindingType
  Severity :: Severity
  Title :: string
  Description :: string
  ID :: string
  References :: "string list"
  Remediation :: string

record ScanResult =
  Scanner :: string
  PackagesScanned :: int
  Findings :: "Finding list"
  ScanDuration :: int
  Cached :: bool

record AggregatedResult =
  Results :: "ScanResult list"
  TotalPackages :: int
  TotalFindings :: int
  HasMalware :: bool
  HasCritical :: bool
  HasHigh :: bool
  Duration :: int

text \<open>The counting and filtering methods of \<open>AggregatedResult\<close>: each is the nested loop
  of the source, the inner one over the findings of one result.\<close>

definition CountBySeverity :: "AggregatedResult \<Rightarrow> Severity \<Rightarrow> int" where
  "CountBySeverity ar sev =
     foldl (\<lambda>count result.
              foldl (\<lambda>count finding. if Severity finding = sev then count + 1 else count)
                count (Findings result))
       0 (Results ar)"

definition CountByType :: "AggregatedResult \<Rightarrow> FindingType \<Rightarrow> int" where
  "CountByType ar typ =
     foldl (\<lambda>count result.
              foldl (\<lambda>count finding. if Type finding = typ then count + 1 else count)
                count (Findings result))
       0 (Results ar)"

definition AllFindings :: "AggregatedResult \<Rightarrow> Finding list" where
  "AllFindings ar = foldl (\<lambda>findings result. findings @ Findings result) [] (Results ar)"



section \<open>Configuration (internal/config/config.go)\<close>

text \<open>Of \<open>Config\<close> the model keeps what scanning and the policy read: the two
  \<open>Scanning.*.Enabled\<close> switches and \<open>Scanning.Policy\<close>. The map \<open>CVE\<close> is only ever
  looked up, so it is a partial function from severity to action.\<close>

record PolicyConfig =
  Malware :: string
  CVE :: "string \<rightharpoonup> string"
  AllowOverride :: bool
  Allowlist :: "string list"
  Blocklist :: "string list"

record Config =
  SocketEnabled :: bool
  OSVEnabled :: bool
  Policy :: PolicyConfig


definition ShouldWarn :: "Config \<Rightarrow> string \<Rightarrow> bool" where
  "ShouldWarn c action = (action = ''warn'')"


text \<open>The loop shared by the two list lookups: true at the first entry equal to the
  name.\<close>

fun name_listed :: "string list \<Rightarrow> string \<Rightarrow> bool" where
  "name_listed [] name = False"
| "name_listed (pkg # rest) name = (if pkg = name then True else name_listed rest name)"

definition IsPackageAllowlisted :: "Config \<Rightarrow> string \<Rightarrow> bool" where
  "IsPackageAllowlisted c name = name_listed (Allowlist (Policy c)) name"

definition IsPackageBlocklisted :: "Config \<Rightarrow> string \<Rightarrow> bool" where
  "IsPackageBlocklisted c name = name_listed (Blocklist (Policy c)) name"

section \<open>Scanners and the orchestrator (internal/scanner)\<close>

text \<open>
  The \<open>Scanner\<close> interface: \<open>ScannerName\<close> is its method \<open>Name\<close>, \<open>ScanPackages\<close> its
  method \<open>Scan\<close>, which returns a result or a non-nil error (both clients of the
  repository return one or the other, and each call is bounded by the client's
  timeout). \<open>IsAvailable\<close> does not change during a scan.
\<close>

record Scanner =
  ScannerName :: string
  IsAvailable :: bool
  ScanPackages :: "Package list \<Rightarrow> error + ScanResult"

record Orchestrator =
  scanners :: "Scanner list"
  config :: Config

text \<open>\<open>NewOrchestrator\<close>; the two clients that \<open>socket.NewClient\<close> and \<open>osv.NewClient\<close>
  build from the configuration are parameters.\<close>

definition NewOrchestrator :: "Scanner \<Rightarrow> Scanner \<Rightarrow> Config \<Rightarrow> Orchestrator" where
  "NewOrchestrator socketClient osvClient cfg =
     (let o1 = \<lparr>scanners = [], config = cfg\<rparr>;
          o2 = (if SocketEnabled cfg then o1\<lparr>scanners := scanners o1 @ [socketClient]\<rparr> else o1);
          o3 = (if OSVEnabled cfg then o2\<lparr>scanners := scanners o2 @ [osvClient]\<rparr> else o2)
      in o3)"

definition filterAllowlisted :: "Orchestrator \<Rightarrow> Package list \<Rightarrow> Package list" where
  "filterAllowlisted orch packages =
     foldl (\<lambda>filtered pkg.
              if \<not> IsPackageAllowlisted (config orch) (Name pkg) then filtered @ [pkg]
              else filtered)
       [] packages"

definition aggregate_finding :: "AggregatedResult \<Rightarrow> Finding \<Rightarrow> AggregatedResult" where
  "aggregate_finding aggregated finding =
     (let a1 = aggregated\<lparr>TotalFindings := TotalFindings aggregated + 1\<rparr>;
          a2 = (if Type finding = FindingTypeMalware \<or> Type finding = FindingTypeTyposquat
                then a1\<lparr>HasMalware := True\<rparr> else a1)
      in if Severity finding = SeverityCritical then a2\<lparr>HasCritical := True\<rparr>
         else if Severity finding = SeverityHigh then a2\<lparr>HasHigh := True\<rparr>
         else a2)"

definition aggregate :: "ScanResult list \<Rightarrow> AggregatedResult" where
  "aggregate results =
     foldl (\<lambda>aggregated result. foldl aggregate_finding aggregated (Findings result))
       \<lparr>Results = results, TotalPackages = 0, TotalFindings = 0, HasMalware = False,
        HasCritical = False, HasHigh = False, Duration = 0\<rparr>
       results"

text \<open>
  What a run does besides returning: the calls of a scanner's \<open>Scan\<close> method and of the
  progress callback. Every goroutine has a trace of its own.
\<close>

datatype event = ScanCall string | Progress string bool

text \<open>The goroutine started for one available scanner, in \<open>Scan\<close> and in
  \<open>ScanWithProgress\<close> (\<open>hasCallback\<close>: the callback is not nil): its trace, and what it
  sends, an error on \<open>errChan\<close> or a result on \<open>resultsChan\<close>.\<close>

definition scan_task :: "Package list \<Rightarrow> Scanner \<Rightarrow> event list \<times> (error + ScanResult)" where
  "scan_task filteredPackages scanner =
     ([ScanCall (ScannerName scanner)], ScanPackages scanner filteredPackages)"

definition progress_task ::
  "bool \<Rightarrow> Package list \<Rightarrow> Scanner \<Rightarrow> event list \<times> (error + ScanResult)" where
  "progress_task hasCallback filteredPackages scanner =
     ((if hasCallback then [Progress (ScannerName scanner) False] else [])
        @ [ScanCall (ScannerName scanner)]
        @ (if hasCallback then [Progress (ScannerName scanner) True] else []),
      ScanPackages scanner filteredPackages)"

text \<open>
  The goroutines run concurrently and send on buffered channels, so the order in which
  their outcomes arrive is not fixed by the program. The schedule \<open>sched\<close> fixes it:
  each number picks, among the goroutines still running, the next one to send (modulo
  their count); when the schedule is used up the rest sends in launch order. Every
  schedule gives a reordering of the outcomes and every reordering comes from one.
\<close>

function completion_order :: "nat list \<Rightarrow> 'a list \<Rightarrow> 'a list" where
  "completion_order sched [] = []"
| "completion_order [] (x # xs) = x # xs"
| "completion_order (k # sched) (x # xs) =
     (let i = k mod length (x # xs)
      in (x # xs) ! i # completion_order sched (take i (x # xs) @ drop (Suc i) (x # xs)))"
  by pat_completeness auto
termination
  by (relation "measure (\<lambda>(sched, xs). length xs)") auto

text \<open>The collecting loop: it receives from the two channels until both are closed. A
  result is appended to \<open>results\<close>; of the errors the first received is kept.\<close>

fun collect ::
  "(error + ScanResult) list \<Rightarrow> ScanResult list \<Rightarrow> error option
     \<Rightarrow> ScanResult list \<times> error option" where
  "collect [] results firstErr = (results, firstErr)"
| "collect (Inr result # rest) results firstErr = collect rest (results @ [result]) firstErr"
| "collect (Inl err # rest) results firstErr =
     collect rest results (if firstErr = None then Some err else firstErr)"

text \<open>The loop over the original packages that adds a finding for a blocklisted one:
  \<open>policy_result\<close> is the scan result it appends, \<open>blocklist_entry\<close> its body.\<close>

definition policy_result :: "Package \<Rightarrow> ScanResult" where
  "policy_result pkg =
     \<lparr>Scanner = ''policy'', PackagesScanned = 1,
      Findings =
        [\<lparr>FindingPackage = Name pkg, FindingVersion = Version pkg,
          Type = FindingTypeMalware, Severity = SeverityCritical,
          Title = ''Blocklisted package'',
          Description = ''This package is in your blocklist'',
          ID = [], References = [], Remediation = []\<rparr>],
      ScanDuration = 0, Cached = False\<rparr>"

definition blocklist_entry :: "Config \<Rightarrow> AggregatedResult \<Rightarrow> Package \<Rightarrow> AggregatedResult" where
  "blocklist_entry cfg aggregated pkg =
     (if IsPackageBlocklisted cfg (Name pkg)
      then aggregated
        \<lparr>Results := Results aggregated @ [policy_result pkg],
         HasMalware := True,
         TotalFindings := TotalFindings aggregated + 1\<rparr>
      else aggregated)"

text \<open>
  \<open>Scan\<close>. \<open>elapsed\<close> is what \<open>time.Since(start)\<close> reads where the result's \<open>Duration\<close>
  is set. The value is the traces of the goroutines started, in launch order, and what
  \<open>Scan\<close> returns.
\<close>

definition Scan ::
  "Orchestrator \<Rightarrow> nat list \<Rightarrow> int \<Rightarrow> Package list
     \<Rightarrow> event list list \<times> (error + AggregatedResult)" where
  "Scan orch sched elapsed packages =
     (if length packages = 0
      then ([], Inr \<lparr>Results = [], TotalPackages = 0, TotalFindings = 0, HasMalware = False,
                     HasCritical = False, HasHigh = False, Duration = elapsed\<rparr>)
      else
        let filteredPackages = filterAllowlisted orch packages;
            tasks = map (scan_task filteredPackages) (filter IsAvailable (scanners orch));
            collected = collect (completion_order sched (map snd tasks)) [] None
        in (map fst tasks,
            case collected of
              ([], Some firstErr) \<Rightarrow> Inl firstErr
            | (results, _) \<Rightarrow>
                Inr (foldl (blocklist_entry (config orch))
                       ((aggregate results)
                          \<lparr>TotalPackages := int (length filteredPackages), Duration := elapsed\<rparr>)
                       packages)))"

definition ScanWithProgress ::
  "Orchestrator \<Rightarrow> nat list \<Rightarrow> int \<Rightarrow> Package list \<Rightarrow> bool
     \<Rightarrow> event list list \<times> (error + AggregatedResult)" where
  "ScanWithProgress orch sched elapsed packages hasCallback =
     (if length packages = 0
      then ([], Inr \<lparr>Results = [], TotalPackages = 0, TotalFindings = 0, HasMalware = False,
                     HasCritical = False, HasHigh = False, Duration = elapsed\<rparr>)
      else
        let filteredPackages = filterAllowlisted orch packages;
            tasks = map (progress_task hasCallback filteredPackages)
                      (filter IsAvailable (scanners orch));
            collected = collect (completion_order sched (map snd tasks)) [] None
        in (map fst tasks,
            case collected of
              ([], Some firstErr) \<Rightarrow> Inl firstErr
            | (results, _) \<Rightarrow>
                Inr ((aggregate results)
                       \<lparr>TotalPackages := int (length filteredPackages), Duration := elapsed\<rparr>)))"

section \<open>Policy evaluation (internal/cli/scan.go, internal/cli/install.go)\<close>



section \<open>Confirmation prompts (internal/ui/prompt.go)\<close>

text \<open>
  A line read from the terminal is the sequence of runes (Unicode code points) that Go's
  UTF-8 decoding gives for it, an invalid byte being U+FFFD. \<open>runes\<close> is the rune
  sequence of an ASCII string literal.
\<close>

type_synonym rune = nat

definition runes :: "string \<Rightarrow> rune list" where
  "runes s = map of_char s"

text \<open>\<open>unicode.IsSpace\<close> of the Go standard library: six ASCII characters, U+0085 and
  U+00A0 in Latin-1, and beyond Latin-1 the code points of the property White_Space.\<close>

definition IsSpace :: "rune \<Rightarrow> bool" where
  "IsSpace r =
     (if r \<le> 255
      then r = 9 \<or> r = 10 \<or> r = 11 \<or> r = 12 \<or> r = 13 \<or> r = 32 \<or> r = 133 \<or> r = 160
      else r = 5760 \<or> (8192 \<le> r \<and> r \<le> 8202) \<or> r = 8232 \<or> r = 8233 \<or> r = 8239
           \<or> r = 8287 \<or> r = 12288)"

text \<open>\<open>strings.TrimSpace\<close>: leading and trailing white space is cut off.\<close>

definition TrimSpace :: "rune list \<Rightarrow> rune list" where
  "TrimSpace s = rev (dropWhile IsSpace (rev (dropWhile IsSpace s)))"

text \<open>\<open>strings.ToLower\<close> maps every rune through \<open>unicode.ToLower\<close>, which turns \<open>A\<close> to
  \<open>Z\<close> into \<open>a\<close> to \<open>z\<close>, leaves the other ASCII runes alone and looks the others up in
  the case tables of the Unicode standard; these tables are the parameter
  \<open>caseTable\<close>.\<close>

definition unicode_ToLower :: "(rune \<Rightarrow> rune) \<Rightarrow> rune \<Rightarrow> rune" where
  "unicode_ToLower caseTable r =
     (if r \<le> 127 then (if 65 \<le> r \<and> r \<le> 90 then r + 32 else r) else caseTable r)"

definition ToLower :: "(rune \<Rightarrow> rune) \<Rightarrow> rune list \<Rightarrow> rune list" where
  "ToLower caseTable s = map (unicode_ToLower caseTable) s"

text \<open>The prompts take what \<open>reader.ReadString\<close> returns, the text read and the error
  (an end of input before the newline is one). What they print is left out.\<close>

definition PromptUnsecure :: "(rune \<Rightarrow> rune) \<Rightarrow> rune list \<times> error option \<Rightarrow> bool" where
  "PromptUnsecure caseTable read =
     (case read of (input, err) \<Rightarrow>
        if err \<noteq> None then False
        else TrimSpace (ToLower caseTable input) = runes ''unsecure'')"

definition PromptForce :: "(rune \<Rightarrow> rune) \<Rightarrow> rune list \<times> error option \<Rightarrow> bool" where
  "PromptForce caseTable read =
     (case read of (input, err) \<Rightarrow>
        if err \<noteq> None then False
        else TrimSpace (ToLower caseTable input) = runes ''force'')"

section \<open>Notions used in the statements\<close>

text \<open>A finding that counts as malware for the orchestrator and the result model.\<close>

definition is_malware :: "Finding \<Rightarrow> bool" where
  "is_malware f = (Type f = FindingTypeMalware \<or> Type f = FindingTypeTyposquat)"

text \<open>What the goroutines of a scan send, in launch order: one outcome for each available
  scanner, run on the packages left by the allowlist. \<open>successes\<close> and \<open>failures\<close> are the
  results and the errors among outcomes, in their order.\<close>

definition outcomes :: "Orchestrator \<Rightarrow> Package list \<Rightarrow> (error + ScanResult) list" where
  "outcomes orch packages =
     map (\<lambda>scanner. ScanPackages scanner (filterAllowlisted orch packages))
       (filter IsAvailable (scanners orch))"

definition successes :: "(error + ScanResult) list \<Rightarrow> ScanResult list" where
  "successes outs = [result. Inr result \<leftarrow> outs]"

definition failures :: "(error + ScanResult) list \<Rightarrow> error list" where
  "failures outs = [err. Inl err \<leftarrow> outs]"

definition blocklisted :: "Orchestrator \<Rightarrow> Package list \<Rightarrow> Package list" where
  "blocklisted orch packages =
     filter (\<lambda>pkg. IsPackageBlocklisted (config orch) (Name pkg)) packages"

section \<open>Example configuration, scanners and packages\<close>

text \<open>The policy of the README: malware and critical vulnerabilities block, high and
  medium ones warn, low ones are ignored; \<open>lodash\<close> and \<open>malicious-lib\<close> are allowlisted,
  \<open>malicious-lib\<close> is blocklisted too.\<close>

definition example_config :: Config where
  "example_config =
     \<lparr>SocketEnabled = True, OSVEnabled = True,
      Policy = \<lparr>Malware = ''block'',
                CVE = [''critical'' \<mapsto> ''block'', ''high'' \<mapsto> ''warn'',
                       ''medium'' \<mapsto> ''warn'', ''low'' \<mapsto> ''ignore''],
                AllowOverride = True,
                Allowlist = [''lodash'', ''malicious-lib''],
                Blocklist = [''malicious-lib'']\<rparr>\<rparr>"

definition example_finding :: "string \<Rightarrow> FindingType \<Rightarrow> Severity \<Rightarrow> Finding" where
  "example_finding pkg typ sev =
     \<lparr>FindingPackage = pkg, FindingVersion = ''1.0.0'', Type = typ, Severity = sev,
      Title = ''Prototype pollution'', Description = ''reported by the scanner'',
      ID = ''GHSA-0000'', References = [], Remediation = []\<rparr>"

text \<open>A Socket client whose request fails, one without a token, and an OSV client that
  reports the given findings.\<close>

definition failing_socket :: Scanner where
  "failing_socket =
     \<lparr>ScannerName = ''Socket.dev'', IsAvailable = True,
      ScanPackages = (\<lambda>packages. Inl (ForeignError ''API error (status 401)''))\<rparr>"

definition tokenless_socket :: Scanner where
  "tokenless_socket =
     \<lparr>ScannerName = ''Socket.dev'', IsAvailable = False,
      ScanPackages = (\<lambda>packages.
        Inr \<lparr>Scanner = ''Socket.dev'', PackagesScanned = 0, Findings = [],
             ScanDuration = 0, Cached = False\<rparr>)\<rparr>"

definition reporting_osv :: "Finding list \<Rightarrow> Scanner" where
  "reporting_osv findings =
     \<lparr>ScannerName = ''Google OSV'', IsAvailable = True,
      ScanPackages = (\<lambda>packages.
        Inr \<lparr>Scanner = ''Google OSV'', PackagesScanned = int (length packages),
             Findings = findings, ScanDuration = 0, Cached = False\<rparr>)\<rparr>"

definition express_pkg :: Package where
  "express_pkg = \<lparr>Name = ''express'', Version = ''4.18.2'', Ecosystem = ''npm''\<rparr>"

definition malicious_pkg :: Package where
  "malicious_pkg = \<lparr>Name = ''malicious-lib'', Version = ''0.0.1'', Ecosystem = ''npm''\<rparr>"

definition osv_result :: "Finding list \<Rightarrow> ScanResult" where
  "osv_result findings =
     \<lparr>Scanner = ''Google OSV'', PackagesScanned = 1, Findings = findings,
      ScanDuration = 0, Cached = False\<rparr>"

text \<open>An orchestrator with both scanners enabled, the first of which fails, and what
  its scan of \<open>express\<close> and \<open>malicious-lib\<close> returns after 250 time units.\<close>

definition example_orchestrator :: Orchestrator where
  "example_orchestrator =
     NewOrchestrator failing_socket
       (reporting_osv [example_finding ''express'' FindingTypeCVE SeverityHigh,
                       example_finding ''express'' FindingTypeCVE SeverityLow])
       example_config"

definition example_aggregated :: AggregatedResult where
  "example_aggregated =
     \<lparr>Results =
        [osv_result [example_finding ''express'' FindingTypeCVE SeverityHigh,
                     example_finding ''express'' FindingTypeCVE SeverityLow],
         policy_result malicious_pkg],
      TotalPackages = 1, TotalFindings = 3, HasMalware = True, HasCritical = False,
      HasHigh = True, Duration = 250\<rparr>"

text \<open>An orchestrator whose two scanners both fail, one whose only enabled scanner has
  no token, and a lockfile with the paths of the parser's test.\<close>

definition failing_osv :: Scanner where
  "failing_osv =
     \<lparr>ScannerName = ''Google OSV'', IsAvailable = True,
      ScanPackages = (\<lambda>packages. Inl (ForeignError ''request failed: timeout''))\<rparr>"

definition failing_orchestrator :: Orchestrator where
  "failing_orchestrator = NewOrchestrator failing_socket failing_osv example_config"

definition tokenless_orchestrator :: Orchestrator where
  "tokenless_orchestrator =
     NewOrchestrator tokenless_socket (reporting_osv []) (example_config\<lparr>OSVEnabled := False\<rparr>)"

definition example_lockfile :: PackageLock where
  "example_lockfile =
     \<lparr>LockName = ''app'', LockVersion = ''1.0.0'', LockfileVersion = 3,
      Packages =
        [('''', \<lparr>PkgVersion = ''1.0.0'', Resolved = '''', Integrity = '''', Dev = False\<rparr>),
         (''node_modules/lodash'',
            \<lparr>PkgVersion = ''4.17.21'', Resolved = '''', Integrity = '''', Dev = False\<rparr>),
         (''node_modules/@babel/core'',
            \<lparr>PkgVersion = ''7.24.0'', Resolved = '''', Integrity = '''', Dev = False\<rparr>),
         (''node_modules/foo/node_modules/bar'',
            \<lparr>PkgVersion = ''2.0.0'', Resolved = '''', Integrity = '''', Dev = False\<rparr>),
         (''node_modules/@babel/core/node_modules/@types/node'',
            \<lparr>PkgVersion = ''20.1.0'', Resolved = '''', Integrity = '''', Dev = False\<rparr>),
         (''node_modules/foo/node_modules/@babel/helper-plugin-utils'',
            \<lparr>PkgVersion = ''7.22.5'', Resolved = '''', Integrity = '''', Dev = False\<rparr>)]\<rparr>"

text \<open>The configuration with the CVE policy that \<open>Load\<close> sets when none is configured, one
  that only maps the severity \<open>info\<close>, to block, and the result of a scan in which OSV
  reports one CVE finding of the given severity.\<close>

definition default_config :: Config where
  "default_config =
     \<lparr>SocketEnabled = True, OSVEnabled = True,
      Policy = \<lparr>Malware = ''block'',
                CVE = [''critical'' \<mapsto> ''block'', ''high'' \<mapsto> ''block'',
                       ''medium'' \<mapsto> ''block'', ''low'' \<mapsto> ''warn''],
                AllowOverride = True, Allowlist = [], Blocklist = []\<rparr>\<rparr>"





section \<open>Lists, allowlist and completion order\<close>

lemma name_listed_iff: "name_listed xs name \<longleftrightarrow> name \<in> set xs"
  by (induction xs) auto

lemma filterAllowlisted_filter:
  "filterAllowlisted orch packages = filter (\<lambda>pkg. \<not> IsPackageAllowlisted (config orch) (Name pkg)) packages"
proof -
  have "foldl (\<lambda>filtered pkg. if \<not> IsPackageAllowlisted (config orch) (Name pkg) then filtered @ [pkg] else filtered) acc packages
        = acc @ filter (\<lambda>pkg. \<not> IsPackageAllowlisted (config orch) (Name pkg)) packages" for acc
    by (induction packages arbitrary: acc) auto
  then show ?thesis by (simp add: filterAllowlisted_def)
qed





lemma completion_order_step:
  "xs \<noteq> [] \<Longrightarrow> completion_order (k # sched) xs =
     (let i = k mod length xs in xs ! i # completion_order sched (take i xs @ drop (Suc i) xs))"
  by (cases xs) simp_all

lemma completion_order_complete:
  "mset ys = mset xs \<Longrightarrow> \<exists>sched. completion_order sched xs = ys"
proof (induction ys arbitrary: xs)
  case Nil
  then show ?case by simp
next
  case (Cons y ys)
  then have "y \<in> set xs" by (metis list.set_intros(1) mset_eq_setD)
  then obtain i where i: "i < length xs" "xs ! i = y" by (auto simp: in_set_conv_nth)
  then have xs: "xs = take i xs @ y # drop (Suc i) xs" using id_take_nth_drop by blast
  then have "mset xs = add_mset y (mset (take i xs @ drop (Suc i) xs))"
    by (metis mset.simps(2) mset_append union_mset_add_mset_right)
  with Cons.prems have "mset ys = mset (take i xs @ drop (Suc i) xs)" by simp
  from Cons.IH [OF this] obtain sched where
    "completion_order sched (take i xs @ drop (Suc i) xs) = ys" ..
  moreover have "xs \<noteq> []" using i by auto
  ultimately have "completion_order (i # sched) xs = y # ys"
    using i by (simp add: completion_order_step)
  then show ?case ..
qed

section \<open>Aggregation\<close>

lemma aggregate_finding_fields:
  "TotalFindings (aggregate_finding a f) = TotalFindings a + 1"
  "HasMalware (aggregate_finding a f) = (HasMalware a \<or> is_malware f)"
  "HasCritical (aggregate_finding a f) = (HasCritical a \<or> Severity f = SeverityCritical)"
  "HasHigh (aggregate_finding a f) = (HasHigh a \<or> Severity f = SeverityHigh)"
  "Results (aggregate_finding a f) = Results a"
  "TotalPackages (aggregate_finding a f) = TotalPackages a"
  "Duration (aggregate_finding a f) = Duration a"
  by (auto simp: aggregate_finding_def is_malware_def SeverityCritical_def SeverityHigh_def Let_def)

lemma aggregate_findings_fields:
  "TotalFindings (foldl aggregate_finding a fs) = TotalFindings a + int (length fs)"
  "HasMalware (foldl aggregate_finding a fs) = (HasMalware a \<or> (\<exists>f \<in> set fs. is_malware f))"
  "HasCritical (foldl aggregate_finding a fs) = (HasCritical a \<or> (\<exists>f \<in> set fs. Severity f = SeverityCritical))"
  "HasHigh (foldl aggregate_finding a fs) = (HasHigh a \<or> (\<exists>f \<in> set fs. Severity f = SeverityHigh))"
  "Results (foldl aggregate_finding a fs) = Results a"
  "TotalPackages (foldl aggregate_finding a fs) = TotalPackages a"
  "Duration (foldl aggregate_finding a fs) = Duration a"
  by (induction fs arbitrary: a; simp add: aggregate_finding_fields; blast?)+

lemma aggregate_results_flat:
  "foldl (\<lambda>aggregated result. foldl aggregate_finding aggregated (Findings result)) a rs
     = foldl aggregate_finding a (concat (map Findings rs))"
  by (induction rs arbitrary: a) simp_all

lemma aggregate_fields:
  "TotalFindings (aggregate rs) = int (length (concat (map Findings rs)))"
  "HasMalware (aggregate rs) = (\<exists>f \<in> set (concat (map Findings rs)). is_malware f)"
  "HasCritical (aggregate rs) = (\<exists>f \<in> set (concat (map Findings rs)). Severity f = SeverityCritical)"
  "HasHigh (aggregate rs) = (\<exists>f \<in> set (concat (map Findings rs)). Severity f = SeverityHigh)"
  "Results (aggregate rs) = rs"
  "TotalPackages (aggregate rs) = 0"
  "Duration (aggregate rs) = 0"
  unfolding aggregate_def aggregate_results_flat aggregate_findings_fields by simp_all

lemma AllFindings_concat: "AllFindings ar = concat (map Findings (Results ar))"
proof -
  have "foldl (\<lambda>findings result. findings @ Findings result) acc rs = acc @ concat (map Findings rs)"
    for acc and rs :: "ScanResult list"
    by (induction rs arbitrary: acc) simp_all
  then show ?thesis by (simp add: AllFindings_def)
qed

section \<open>Collecting the outcomes\<close>

lemma collect_eq:
  "collect outs results firstErr =
     (results @ successes outs,
      if firstErr = None then (case failures outs of [] \<Rightarrow> None | err # _ \<Rightarrow> Some err) else firstErr)"
proof (induction outs results firstErr rule: collect.induct)
  case (1 results firstErr)
  then show ?case by (simp add: successes_def failures_def)
next
  case (2 result rest results firstErr)
  then show ?case by (simp add: successes_def failures_def)
next
  case (3 err rest results firstErr)
  then show ?case by (simp add: successes_def failures_def)
qed





section \<open>Blocklist findings\<close>

lemma blocklist_fold_fields:
  "Results (foldl (blocklist_entry cfg) a ps)
     = Results a @ map policy_result (filter (\<lambda>p. IsPackageBlocklisted cfg (Name p)) ps)"
  "TotalFindings (foldl (blocklist_entry cfg) a ps)
     = TotalFindings a + int (length (filter (\<lambda>p. IsPackageBlocklisted cfg (Name p)) ps))"
  "HasMalware (foldl (blocklist_entry cfg) a ps)
     = (HasMalware a \<or> (\<exists>p \<in> set ps. IsPackageBlocklisted cfg (Name p)))"
  "HasCritical (foldl (blocklist_entry cfg) a ps) = HasCritical a"
  "HasHigh (foldl (blocklist_entry cfg) a ps) = HasHigh a"
  "TotalPackages (foldl (blocklist_entry cfg) a ps) = TotalPackages a"
  "Duration (foldl (blocklist_entry cfg) a ps) = Duration a"
  by (induction ps arbitrary: a; simp add: blocklist_entry_def; blast?)+

section \<open>What a scan returns\<close>

lemma NewOrchestrator_none_enabled:
  "\<not> SocketEnabled cfg \<Longrightarrow> \<not> OSVEnabled cfg
     \<Longrightarrow> scanners (NewOrchestrator socketClient osvClient cfg) = []"
  by (simp add: NewOrchestrator_def)

lemma Scan_nonempty:
  assumes "packages \<noteq> []"
  shows "Scan orch sched elapsed packages =
     (map (\<lambda>scanner. [ScanCall (ScannerName scanner)]) (filter IsAvailable (scanners orch)),
      case (successes (completion_order sched (outcomes orch packages)),
            failures (completion_order sched (outcomes orch packages))) of
        ([], err # _) \<Rightarrow> Inl err
      | (results, _) \<Rightarrow>
          Inr (foldl (blocklist_entry (config orch))
                 ((aggregate results)
                    \<lparr>TotalPackages := int (length (filterAllowlisted orch packages)),
                     Duration := elapsed\<rparr>)
                 packages))"
  using assms
  by (simp add: Scan_def Let_def collect_eq outcomes_def scan_task_def comp_def
      split: list.splits option.splits)

lemma ScanWithProgress_nonempty:
  assumes "packages \<noteq> []"
  shows "snd (ScanWithProgress orch sched elapsed packages hasCallback) =
     (case (successes (completion_order sched (outcomes orch packages)),
            failures (completion_order sched (outcomes orch packages))) of
        ([], err # _) \<Rightarrow> Inl err
      | (results, _) \<Rightarrow>
          Inr ((aggregate results)
                    \<lparr>TotalPackages := int (length (filterAllowlisted orch packages)),
                     Duration := elapsed\<rparr>))"
  using assms
  by (simp add: ScanWithProgress_def Let_def collect_eq outcomes_def progress_task_def comp_def
      split: list.splits option.splits)

lemma Scan_result_fields:
  assumes "snd (Scan orch sched elapsed packages) = Inr agg" and "packages \<noteq> []"
  shows "Results agg = successes (completion_order sched (outcomes orch packages))
            @ map policy_result (blocklisted orch packages)"
    and "TotalFindings agg =
           int (length (concat (map Findings (successes (completion_order sched (outcomes orch packages))))))
             + int (length (blocklisted orch packages))"
    and "HasMalware agg =
           ((\<exists>f \<in> set (concat (map Findings (successes (completion_order sched (outcomes orch packages))))). is_malware f)
             \<or> blocklisted orch packages \<noteq> [])"
    and "TotalPackages agg = int (length (filterAllowlisted orch packages))"
    and "Duration agg = elapsed"
proof -
  let ?rs = "successes (completion_order sched (outcomes orch packages))"
  have agg: "agg = foldl (blocklist_entry (config orch))
                 ((aggregate ?rs)
                    \<lparr>TotalPackages := int (length (filterAllowlisted orch packages)),
                     Duration := elapsed\<rparr>)
                 packages"
    using assms by (simp add: Scan_nonempty split: list.splits)
  show "Results agg = ?rs @ map policy_result (blocklisted orch packages)"
    by (simp add: agg blocklist_fold_fields aggregate_fields blocklisted_def)
  show "TotalFindings agg = int (length (concat (map Findings ?rs))) + int (length (blocklisted orch packages))"
    by (simp add: agg blocklist_fold_fields aggregate_fields blocklisted_def)
  show "HasMalware agg = ((\<exists>f \<in> set (concat (map Findings ?rs)). is_malware f) \<or> blocklisted orch packages \<noteq> [])"
    by (simp add: agg blocklist_fold_fields aggregate_fields blocklisted_def filter_empty_conv)
  show "TotalPackages agg = int (length (filterAllowlisted orch packages))"
    by (simp add: agg blocklist_fold_fields)
  show "Duration agg = elapsed"
    by (simp add: agg blocklist_fold_fields)
qed

lemma policy_findings_length:
  "length (concat (map (Findings \<circ> policy_result) ps)) = length ps"
  by (induction ps) (simp_all add: policy_result_def)




lemma ScanWithProgress_eq_Scan_unless_blocklisted:
  assumes "blocklisted orch packages = []"
  shows "snd (ScanWithProgress orch sched elapsed packages hasCallback)
           = snd (Scan orch sched elapsed packages)"
proof (cases "packages = []")
  case True
  then show ?thesis by (simp add: Scan_def ScanWithProgress_def)
next
  case False
  have same: "foldl (blocklist_entry (config orch)) a packages = a" for a
    using assms unfolding blocklisted_def
    by (induction packages arbitrary: a) (auto simp: blocklist_entry_def split: if_splits)
  show ?thesis using False by (simp add: Scan_nonempty ScanWithProgress_nonempty same split: list.splits)
qed

section \<open>Trimming white space\<close>

lemma dropWhile_all: "list_all P xs \<Longrightarrow> dropWhile P (xs @ ys) = dropWhile P ys"
  by (induction xs) simp_all

lemma rev_dropWhile_split:
  "xs = rev (dropWhile P (rev xs)) @ rev (takeWhile P (rev xs))"
proof -
  have "rev xs = takeWhile P (rev xs) @ dropWhile P (rev xs)"
    by (simp only: takeWhile_dropWhile_id)
  then have "rev (rev xs) = rev (takeWhile P (rev xs) @ dropWhile P (rev xs))"
    by (rule arg_cong)
  then show ?thesis by (simp only: rev_rev_ident rev_append)
qed

lemma TrimSpace_split:
  "\<exists>pre post. s = pre @ TrimSpace s @ post \<and> list_all IsSpace pre \<and> list_all IsSpace post"
proof -
  let ?pre = "takeWhile IsSpace s"
  let ?rest = "dropWhile IsSpace s"
  let ?post = "rev (takeWhile IsSpace (rev ?rest))"
  have "?rest = TrimSpace s @ ?post"
    unfolding TrimSpace_def by (rule rev_dropWhile_split)
  then have "?pre @ ?rest = ?pre @ TrimSpace s @ ?post" by (rule arg_cong)
  then have "s = ?pre @ TrimSpace s @ ?post" by (simp only: takeWhile_dropWhile_id)
  moreover have "list_all IsSpace ?pre"
    unfolding list_all_iff by (blast dest: set_takeWhileD)
  moreover have "list_all IsSpace ?post"
    unfolding list_all_iff set_rev by (blast dest: set_takeWhileD)
  ultimately show ?thesis by blast
qed

lemma TrimSpace_surrounded:
  assumes "w \<noteq> []" and "\<not> IsSpace (hd w)" and "\<not> IsSpace (last w)"
    and "list_all IsSpace pre" and "list_all IsSpace post"
  shows "TrimSpace (pre @ w @ post) = w"
proof -
  obtain x xs where w: "w = x # xs" using assms(1) by (cases w) auto
  have x: "\<not> IsSpace x" using assms(2) by (simp add: w)
  have w1: "dropWhile IsSpace (w @ post) = w @ post"
    using x by (simp add: w)
  have front: "dropWhile IsSpace (pre @ w @ post) = w @ post"
    by (simp only: dropWhile_all [OF assms(4)] w1)
  obtain y ys where rw: "rev w = y # ys" using assms(1) by (cases "rev w") auto
  have "hd (rev w) = last w" by (simp only: hd_rev)
  then have y: "\<not> IsSpace y" using assms(3) by (simp add: rw)
  have w2: "dropWhile IsSpace (rev w) = rev w"
    using y by (simp add: rw)
  have rpost: "list_all IsSpace (rev post)" using assms(5) by (simp add: list_all_iff)
  have behind: "dropWhile IsSpace (rev post @ rev w) = rev w"
    by (simp only: dropWhile_all [OF rpost] w2)
  have "TrimSpace (pre @ w @ post) = rev (dropWhile IsSpace (rev (w @ post)))"
    by (simp only: TrimSpace_def front)
  also have "\<dots> = rev (rev w)" by (simp only: rev_append behind)
  finally show ?thesis by simp
qed

lemma TrimSpace_eq_iff:
  assumes "w \<noteq> []" and "\<not> IsSpace (hd w)" and "\<not> IsSpace (last w)"
  shows "TrimSpace s = w \<longleftrightarrow>
           (\<exists>pre post. s = pre @ w @ post \<and> list_all IsSpace pre \<and> list_all IsSpace post)"
proof
  assume "TrimSpace s = w"
  with TrimSpace_split [of s]
  show "\<exists>pre post. s = pre @ w @ post \<and> list_all IsSpace pre \<and> list_all IsSpace post"
    by blast
next
  assume "\<exists>pre post. s = pre @ w @ post \<and> list_all IsSpace pre \<and> list_all IsSpace post"
  then obtain pre post where "s = pre @ w @ post" "list_all IsSpace pre" "list_all IsSpace post"
    by blast
  then show "TrimSpace s = w" using TrimSpace_surrounded [OF assms] by blast
qed

lemma unsecure_ends: "runes ''unsecure'' \<noteq> []" "\<not> IsSpace (hd (runes ''unsecure''))"
  "\<not> IsSpace (last (runes ''unsecure''))"
  by (simp_all add: runes_def IsSpace_def)

lemma force_ends: "runes ''force'' \<noteq> []" "\<not> IsSpace (hd (runes ''force''))"
  "\<not> IsSpace (last (runes ''force''))"
  by (simp_all add: runes_def IsSpace_def)


section \<open>What the policy evaluation computes\<close>










section \<open>Evaluating the examples\<close>

lemmas example_defs =
  example_orchestrator_def NewOrchestrator_def failing_socket_def tokenless_socket_def
  reporting_osv_def example_config_def example_finding_def express_pkg_def malicious_pkg_def

lemmas more_example_defs = failing_osv_def failing_orchestrator_def tokenless_orchestrator_def

lemmas scan_defs =
  Scan_def ScanWithProgress_def Let_def filterAllowlisted_def IsPackageAllowlisted_def
  IsPackageBlocklisted_def scan_task_def progress_task_def aggregate_def aggregate_finding_def
  blocklist_entry_def policy_result_def
  FindingTypeMalware_def FindingTypeCVE_def FindingTypeTyposquat_def
  SeverityCritical_def SeverityHigh_def SeverityMedium_def SeverityLow_def

lemma example_scan:
  "snd (Scan example_orchestrator [1] 250 [express_pkg, malicious_pkg]) = Inr example_aggregated"
  by (simp add: example_defs scan_defs example_aggregated_def osv_result_def)




section \<open>Claims\<close>

text \<open>
  C6. For an empty package list \<open>Scan\<close> returns at once, without error, a result whose
  \<open>TotalPackages\<close> and \<open>TotalFindings\<close> are zero, and no goroutine is started: no
  scanner's \<open>Scan\<close> method is called, whatever scanners the orchestrator holds.
\<close>

theorem Scan_empty_packages:
  "Scan orch sched elapsed [] =
     ([], Inr \<lparr>Results = [], TotalPackages = 0, TotalFindings = 0, HasMalware = False,
               HasCritical = False, HasHigh = False, Duration = elapsed\<rparr>)"
  by (simp add: Scan_def)

text \<open>
  C9. In every result that \<open>Scan\<close> returns without error, \<open>TotalFindings\<close> is the number
  of findings held by the entries of \<open>Results\<close>, the length of \<open>AllFindings\<close>, the
  findings added for blocklisted packages included.
\<close>

theorem Scan_total_findings_is_count:
  assumes "snd (Scan orch sched elapsed packages) = Inr agg"
  shows "TotalFindings agg = int (length (AllFindings agg))"
proof (cases "packages = []")
  case True
  with assms have "agg = \<lparr>Results = [], TotalPackages = 0, TotalFindings = 0, HasMalware = False,
               HasCritical = False, HasHigh = False, Duration = elapsed\<rparr>"
    by (simp add: Scan_def)
  then show ?thesis by (simp add: AllFindings_concat)
next
  case False
  from Scan_result_fields(1,2) [OF assms False] show ?thesis
    by (simp add: AllFindings_concat policy_findings_length)
qed

theorem Scan_total_findings_is_count_witness:
  "snd (Scan example_orchestrator [1] 250 [express_pkg, malicious_pkg]) = Inr example_aggregated
     \<and> TotalFindings example_aggregated = int (length (AllFindings example_aggregated))"
  using Scan_total_findings_is_count [OF example_scan] example_scan by blast

text \<open>
  C7. Aggregation does not depend on the order of what it folds: two lists of scanner
  results that hold the same findings, each as often, in whatever order of the results
  and of the findings inside them, aggregate to the same \<open>TotalFindings\<close>,
  \<open>HasMalware\<close>, \<open>HasCritical\<close> and \<open>HasHigh\<close>. (A permutation of the results keeps
  the findings, by \<open>mset_results_findings\<close>.)
\<close>

theorem aggregate_order_independent:
  assumes "mset (concat (map Findings rs')) = mset (concat (map Findings rs))"
  shows "TotalFindings (aggregate rs') = TotalFindings (aggregate rs)
       \<and> HasMalware (aggregate rs') = HasMalware (aggregate rs)
       \<and> HasCritical (aggregate rs') = HasCritical (aggregate rs)
       \<and> HasHigh (aggregate rs') = HasHigh (aggregate rs)"
proof -
  have len: "length (concat (map Findings rs')) = length (concat (map Findings rs))"
    using assms by (rule mset_eq_length)
  have set: "set (concat (map Findings rs')) = set (concat (map Findings rs))"
    using assms by (rule mset_eq_setD)
  show ?thesis unfolding aggregate_fields len set by simp
qed

theorem aggregate_order_independent_witness:
  "TotalFindings (aggregate
       [policy_result malicious_pkg,
        osv_result [example_finding ''express'' FindingTypeCVE SeverityHigh,
                    example_finding ''express'' FindingTypeTyposquat SeverityLow]]) = 3
   \<and> TotalFindings (aggregate
       [osv_result [example_finding ''express'' FindingTypeTyposquat SeverityLow,
                    example_finding ''express'' FindingTypeCVE SeverityHigh],
        policy_result malicious_pkg]) = 3
   \<and> HasMalware (aggregate
       [policy_result malicious_pkg,
        osv_result [example_finding ''express'' FindingTypeCVE SeverityHigh,
                    example_finding ''express'' FindingTypeTyposquat SeverityLow]])
     = HasMalware (aggregate
       [osv_result [example_finding ''express'' FindingTypeTyposquat SeverityLow,
                    example_finding ''express'' FindingTypeCVE SeverityHigh],
        policy_result malicious_pkg])"
proof -
  let ?a = "[policy_result malicious_pkg,
        osv_result [example_finding ''express'' FindingTypeCVE SeverityHigh,
                    example_finding ''express'' FindingTypeTyposquat SeverityLow]]"
  let ?b = "[osv_result [example_finding ''express'' FindingTypeTyposquat SeverityLow,
                    example_finding ''express'' FindingTypeCVE SeverityHigh],
        policy_result malicious_pkg]"
  have perm: "mset (concat (map Findings ?b)) = mset (concat (map Findings ?a))"
    by (simp add: osv_result_def policy_result_def)
  have "TotalFindings (aggregate ?a) = 3"
    by (simp add: osv_result_def policy_result_def aggregate_fields)
  with aggregate_order_independent [OF perm] show ?thesis by simp
qed



text \<open>
  C10. When the package list is not empty and no scanner of the orchestrator is available
  (none is enabled, or every enabled one reports itself unavailable), \<open>Scan\<close> starts no
  goroutine and returns a result without error, not the error of the case where all
  scanners failed: the result holds no finding of a scanner, and for every blocklisted
  package of the original list one entry of the pseudo-scanner \<open>policy\<close> with its
  finding of type malware and severity critical, counted in \<open>TotalFindings\<close> and
  setting \<open>HasMalware\<close>. (With no scanner enabled the orchestrator holds none, by
  \<open>NewOrchestrator_none_enabled\<close>.)
\<close>

theorem Scan_without_available_scanner:
  assumes "packages \<noteq> []" and "\<forall>scanner \<in> set (scanners orch). \<not> IsAvailable scanner"
  shows "Scan orch sched elapsed packages =
     ([], Inr \<lparr>Results =
                 map (\<lambda>pkg.
                        \<lparr>Scanner = ''policy'', PackagesScanned = 1,
                         Findings =
                           [\<lparr>FindingPackage = Name pkg, FindingVersion = Version pkg,
                             Type = FindingTypeMalware, Severity = SeverityCritical,
                             Title = ''Blocklisted package'',
                             Description = ''This package is in your blocklist'',
                             ID = [], References = [], Remediation = []\<rparr>],
                         ScanDuration = 0, Cached = False\<rparr>)
                   (filter (\<lambda>pkg. IsPackageBlocklisted (config orch) (Name pkg)) packages),
               TotalPackages = int (length (filterAllowlisted orch packages)),
               TotalFindings =
                 int (length (filter (\<lambda>pkg. IsPackageBlocklisted (config orch) (Name pkg)) packages)),
               HasMalware = (\<exists>pkg \<in> set packages. IsPackageBlocklisted (config orch) (Name pkg)),
               HasCritical = False, HasHigh = False, Duration = elapsed\<rparr>)"
proof -
  have none: "filter IsAvailable (scanners orch) = []"
    using assms(2) by (simp add: filter_empty_conv)
  then have outs: "outcomes orch packages = []" by (simp add: outcomes_def)
  have "Scan orch sched elapsed packages =
     ([], Inr (foldl (blocklist_entry (config orch))
                 ((aggregate [])
                    \<lparr>TotalPackages := int (length (filterAllowlisted orch packages)),
                     Duration := elapsed\<rparr>)
                 packages))"
    using assms(1) by (simp add: Scan_nonempty outs none successes_def failures_def)
  moreover have "foldl (blocklist_entry (config orch))
                 ((aggregate [])
                    \<lparr>TotalPackages := int (length (filterAllowlisted orch packages)),
                     Duration := elapsed\<rparr>)
                 packages
      = \<lparr>Results =
                 map (\<lambda>pkg.
                        \<lparr>Scanner = ''policy'', PackagesScanned = 1,
                         Findings =
                           [\<lparr>FindingPackage = Name pkg, FindingVersion = Version pkg,
                             Type = FindingTypeMalware, Severity = SeverityCritical,
                             Title = ''Blocklisted package'',
                             Description = ''This package is in your blocklist'',
                             ID = [], References = [], Remediation = []\<rparr>],
                         ScanDuration = 0, Cached = False\<rparr>)
                   (filter (\<lambda>pkg. IsPackageBlocklisted (config orch) (Name pkg)) packages),
               TotalPackages = int (length (filterAllowlisted orch packages)),
               TotalFindings =
                 int (length (filter (\<lambda>pkg. IsPackageBlocklisted (config orch) (Name pkg)) packages)),
               HasMalware = (\<exists>pkg \<in> set packages. IsPackageBlocklisted (config orch) (Name pkg)),
               HasCritical = False, HasHigh = False, Duration = elapsed\<rparr>"
  proof (rule AggregatedResult.equality)
    have "policy_result = (\<lambda>pkg.
                        \<lparr>Scanner = ''policy'', PackagesScanned = 1,
                         Findings =
                           [\<lparr>FindingPackage = Name pkg, FindingVersion = Version pkg,
                             Type = FindingTypeMalware, Severity = SeverityCritical,
                             Title = ''Blocklisted package'',
                             Description = ''This package is in your blocklist'',
                             ID = [], References = [], Remediation = []\<rparr>],
                         ScanDuration = 0, Cached = False\<rparr>)"
      by (rule ext) (simp add: policy_result_def)
    then show "Results (foldl (blocklist_entry (config orch))
                 ((aggregate [])
                    \<lparr>TotalPackages := int (length (filterAllowlisted orch packages)),
                     Duration := elapsed\<rparr>)
                 packages) = Results \<lparr>Results =
                 map (\<lambda>pkg.
                        \<lparr>Scanner = ''policy'', PackagesScanned = 1,
                         Findings =
                           [\<lparr>FindingPackage = Name pkg, FindingVersion = Version pkg,
                             Type = FindingTypeMalware, Severity = SeverityCritical,
                             Title = ''Blocklisted package'',
                             Description = ''This package is in your blocklist'',
                             ID = [], References = [], Remediation = []\<rparr>],
                         ScanDuration = 0, Cached = False\<rparr>)
                   (filter (\<lambda>pkg. IsPackageBlocklisted (config orch) (Name pkg)) packages),
               TotalPackages = int (length (filterAllowlisted orch packages)),
               TotalFindings =
                 int (length (filter (\<lambda>pkg. IsPackageBlocklisted (config orch) (Name pkg)) packages)),
               HasMalware = (\<exists>pkg \<in> set packages. IsPackageBlocklisted (config orch) (Name pkg)),
               HasCritical = False, HasHigh = False, Duration = elapsed\<rparr>"
      by (simp add: blocklist_fold_fields aggregate_fields)
  qed (simp_all add: blocklist_fold_fields aggregate_fields)
  ultimately show ?thesis by simp
qed

theorem Scan_without_available_scanner_witness:
  "Scan tokenless_orchestrator [] 250 [express_pkg, malicious_pkg] =
     ([], Inr \<lparr>Results =
                 [\<lparr>Scanner = ''policy'', PackagesScanned = 1,
                   Findings =
                     [\<lparr>FindingPackage = ''malicious-lib'', FindingVersion = ''0.0.1'',
                       Type = ''malware'', Severity = ''critical'',
                       Title = ''Blocklisted package'',
                       Description = ''This package is in your blocklist'',
                       ID = [], References = [], Remediation = []\<rparr>],
                   ScanDuration = 0, Cached = False\<rparr>],
               TotalPackages = 1, TotalFindings = 1,
               HasMalware = True, HasCritical = False, HasHigh = False, Duration = 250\<rparr>)"
proof -
  have ne: "[express_pkg, malicious_pkg] \<noteq> []" by simp
  have un: "\<forall>scanner \<in> set (scanners tokenless_orchestrator). \<not> IsAvailable scanner"
    by (simp add: example_defs more_example_defs)
  have f: "filterAllowlisted tokenless_orchestrator [express_pkg, malicious_pkg] = [express_pkg]"
    by (simp add: filterAllowlisted_def example_defs more_example_defs IsPackageAllowlisted_def)
  from Scan_without_available_scanner [OF ne un, of "[]" 250] show ?thesis
    by (simp add: f)
       (simp add: example_defs more_example_defs IsPackageBlocklisted_def
          FindingTypeMalware_def SeverityCritical_def)
qed

text \<open>
  C3, as the code has it. Whenever \<open>Scan\<close> returns a result, every package of the
  original list whose name is blocklisted, allowlisted or not, has an entry of the
  pseudo-scanner \<open>policy\<close> in \<open>Results\<close> with one finding of type malware, severity
  critical and title \<open>Blocklisted package\<close>; \<open>HasMalware\<close> is set, and \<open>TotalFindings\<close>
  counts one finding for each such package on top of the scanners' findings. \<open>Scan\<close>
  returns no result, hence no such finding, when every invoked scanner failed: the
  counterexample below is that case.
\<close>

theorem Scan_blocklist_finding:
  assumes "snd (Scan orch sched elapsed packages) = Inr agg"
    and "pkg \<in> set packages"
    and "IsPackageBlocklisted (config orch) (Name pkg)"
  shows "\<lparr>Scanner = ''policy'', PackagesScanned = 1,
           Findings =
             [\<lparr>FindingPackage = Name pkg, FindingVersion = Version pkg,
               Type = FindingTypeMalware, Severity = SeverityCritical,
               Title = ''Blocklisted package'',
               Description = ''This package is in your blocklist'',
               ID = [], References = [], Remediation = []\<rparr>],
           ScanDuration = 0, Cached = False\<rparr> \<in> set (Results agg)
       \<and> HasMalware agg
       \<and> (\<exists>scanned. Results agg = scanned @ map policy_result (blocklisted orch packages)
             \<and> TotalFindings agg = int (length (concat (map Findings scanned)))
                                     + int (length (blocklisted orch packages)))"
proof -
  have ne: "packages \<noteq> []" using assms(2) by auto
  have b: "pkg \<in> set (blocklisted orch packages)"
    using assms(2,3) by (simp add: blocklisted_def)
  note fields = Scan_result_fields [OF assms(1) ne]
  have "policy_result pkg \<in> set (Results agg)" using b by (simp add: fields(1))
  moreover have "HasMalware agg" using b by (auto simp: fields(3))
  ultimately show ?thesis using fields(1,2) by (simp add: policy_result_def)
qed

theorem Scan_blocklist_finding_witness:
  "snd (Scan example_orchestrator [1] 250 [express_pkg, malicious_pkg]) = Inr example_aggregated
   \<and> IsPackageAllowlisted (config example_orchestrator) (Name malicious_pkg)
   \<and> IsPackageBlocklisted (config example_orchestrator) (Name malicious_pkg)
   \<and> policy_result malicious_pkg \<in> set (Results example_aggregated)
   \<and> HasMalware example_aggregated"
proof -
  have m: "malicious_pkg \<in> set [express_pkg, malicious_pkg]" by simp
  have a: "IsPackageAllowlisted (config example_orchestrator) (Name malicious_pkg)"
    by (simp add: example_defs IsPackageAllowlisted_def)
  have b: "IsPackageBlocklisted (config example_orchestrator) (Name malicious_pkg)"
    by (simp add: example_defs IsPackageBlocklisted_def)
  from Scan_blocklist_finding [OF example_scan m b] example_scan a b
  show ?thesis by (simp add: policy_result_def)
qed

theorem Scan_blocklist_all_failed_counterexample:
  "malicious_pkg \<in> set [express_pkg, malicious_pkg]
   \<and> IsPackageBlocklisted (config failing_orchestrator) (Name malicious_pkg)
   \<and> snd (Scan failing_orchestrator [] 250 [express_pkg, malicious_pkg])
       = Inl (ForeignError ''API error (status 401)'')"
  by (simp add: example_defs more_example_defs scan_defs)

text \<open>
  C2. \<open>ScanWithProgress\<close> is claimed to return what \<open>Scan\<close> returns. It does so as long as
  no package is blocklisted (\<open>ScanWithProgress_eq_Scan_unless_blocklisted\<close>), but it
  lacks the loop that adds the blocklist findings: on the example, \<open>Scan\<close> reports three
  findings and malware, \<open>ScanWithProgress\<close> two findings and no malware.
\<close>

theorem ScanWithProgress_omits_blocklist:
  "snd (Scan example_orchestrator [1] 250 [express_pkg, malicious_pkg]) = Inr example_aggregated
   \<and> snd (ScanWithProgress example_orchestrator [1] 250 [express_pkg, malicious_pkg] True) =
       Inr \<lparr>Results =
              [osv_result [example_finding ''express'' FindingTypeCVE SeverityHigh,
                           example_finding ''express'' FindingTypeCVE SeverityLow]],
            TotalPackages = 1, TotalFindings = 2, HasMalware = False, HasCritical = False,
            HasHigh = True, Duration = 250\<rparr>"
  by (simp add: example_defs scan_defs example_aggregated_def osv_result_def)

text \<open>
  C1. The name \<open>GetDependencies\<close> gives a lockfile entry is \<open>filepath.Base\<close> of its path,
  the last segment alone: for the five paths of the claim it returns \<open>lodash\<close>, \<open>core\<close>,
  \<open>bar\<close>, \<open>node\<close> and \<open>helper-plugin-utils\<close>, where the claim and the parser's test
  expect \<open>@babel/core\<close>, \<open>@types/node\<close> and \<open>@babel/helper-plugin-utils\<close> for the scoped
  ones.
\<close>

theorem GetDependencies_drops_scope:
  "GetDependencies (Inr manifest) (Some example_lockfile) False =
     Inr [\<lparr>Name = ''lodash'', Version = ''4.17.21'', Ecosystem = ''npm''\<rparr>,
          \<lparr>Name = ''core'', Version = ''7.24.0'', Ecosystem = ''npm''\<rparr>,
          \<lparr>Name = ''bar'', Version = ''2.0.0'', Ecosystem = ''npm''\<rparr>,
          \<lparr>Name = ''node'', Version = ''20.1.0'', Ecosystem = ''npm''\<rparr>,
          \<lparr>Name = ''helper-plugin-utils'', Version = ''7.22.5'', Ecosystem = ''npm''\<rparr>]"
  by (simp add: GetDependencies_def example_lockfile_def lockfile_entry_def Base_def)

text \<open>
  C8. \<open>PromptUnsecure\<close> returns true exactly when the line was read without error and,
  lowercased and trimmed of white space, is \<open>unsecure\<close>; \<open>PromptForce\<close> likewise with
  \<open>force\<close>. Said of the line itself: lowercased, it is the phrase with nothing but
  white space before and after it. Any other input, and any read error, gives false.
\<close>

theorem prompts_accept_exactly_the_phrases:
  "PromptUnsecure caseTable (input, err) =
     (err = None \<and> TrimSpace (ToLower caseTable input) = runes ''unsecure'')
   \<and> PromptForce caseTable (input, err) =
     (err = None \<and> TrimSpace (ToLower caseTable input) = runes ''force'')
   \<and> PromptUnsecure caseTable (input, err) =
     (err = None \<and> (\<exists>pre post. ToLower caseTable input = pre @ runes ''unsecure'' @ post
                        \<and> list_all IsSpace pre \<and> list_all IsSpace post))
   \<and> PromptForce caseTable (input, err) =
     (err = None \<and> (\<exists>pre post. ToLower caseTable input = pre @ runes ''force'' @ post
                        \<and> list_all IsSpace pre \<and> list_all IsSpace post))"
proof -
  have u: "PromptUnsecure caseTable (input, err) =
     (err = None \<and> TrimSpace (ToLower caseTable input) = runes ''unsecure'')"
    by (simp add: PromptUnsecure_def)
  have f: "PromptForce caseTable (input, err) =
     (err = None \<and> TrimSpace (ToLower caseTable input) = runes ''force'')"
    by (simp add: PromptForce_def)
  show ?thesis
    using u f TrimSpace_eq_iff [OF unsecure_ends] TrimSpace_eq_iff [OF force_ends] by simp
qed

theorem prompts_accept_exactly_the_phrases_witness:
  "PromptUnsecure (\<lambda>r. r) (runes ''  UnSecure \<newline>'', None)
   \<and> PromptForce (\<lambda>r. r) (runes ''FORCE\<newline>'', None)
   \<and> \<not> PromptForce (\<lambda>r. r) (runes ''forced\<newline>'', None)
   \<and> \<not> PromptUnsecure (\<lambda>r. r) (runes ''unsecure'', Some (ForeignError ''EOF''))"
  using prompts_accept_exactly_the_phrases [of "\<lambda>r. r" "runes ''  UnSecure \<newline>''" None]
    prompts_accept_exactly_the_phrases [of "\<lambda>r. r" "runes ''FORCE\<newline>''" None]
    prompts_accept_exactly_the_phrases [of "\<lambda>r. r" "runes ''forced\<newline>''" None]
    prompts_accept_exactly_the_phrases [of "\<lambda>r. r" "runes ''unsecure''" "Some (ForeignError ''EOF'')"]
  by (simp add: TrimSpace_def ToLower_def unicode_ToLower_def runes_def IsSpace_def)




end
